theory Spec2Isabelle
  imports Main
begin

section \<open>Data model\<close>

text \<open>
  The entry of a listing, as the interface \<^verbatim>\<open>FileInfo\<close> of \<^verbatim>\<open>main.ts\<close> declares it.
\<close>

record FileInfo =
  path :: string
  sha :: string
  content_url :: string

text \<open>
  The object \<^verbatim>\<open>existingsHashes\<close> is only ever indexed with a path and the value compared with
  a string by \<^verbatim>\<open>!==\<close>. Such a comparison can only be false when the property is a string, so a
  parsed document is viewed through its string-valued properties: \<open>m p = Some s\<close> when
  property \<open>p\<close> is the string \<open>s\<close>, and \<open>m p = None\<close> when the property is absent or holds
  anything else. The object \<^verbatim>\<open>newHashes\<close> of type \<^verbatim>\<open>Record<string, string>\<close> is such a map as well.
\<close>

type_synonym hashes = "string \<rightharpoonup> string"

text \<open>
  What \<^verbatim>\<open>Deno.readTextFile(hashFilePath)\<close> followed by \<^verbatim>\<open>JSON.parse\<close> meets:
  the file is missing (\<^verbatim>\<open>Deno.errors.NotFound\<close>), reading fails for another reason,
  the text is not JSON (\<^verbatim>\<open>SyntaxError\<close>), the text is the JSON value \<^verbatim>\<open>null\<close> (indexing it
  raises \<^verbatim>\<open>TypeError\<close>), or it is any other JSON value.
\<close>

datatype hash_file = NotFound | ReadFailure | NotJson | JsonNull | JsonValue hashes

text \<open>
  How a call ends: it returns, it ends the process through \<^verbatim>\<open>Deno.exit\<close>, or it throws
  an error that nothing catches.
\<close>

datatype 'a completion = Returns 'a | Exits nat | Throws

text \<open>
  A part of a candidate of the generative service; its \<^verbatim>\<open>text\<close> is optional.
  A candidate is the list \<^verbatim>\<open>candidate.content.parts\<close>.
\<close>

datatype part = Part (part_text: "string option")

type_synonym candidate = "part list"

text \<open>
  What one call of \<^verbatim>\<open>translateText\<close> meets: a \<^verbatim>\<open>fetch\<close> or \<^verbatim>\<open>generateContent\<close> that rejects,
  a missing setting among project, location, model and prompt URL, or a response whose
  \<^verbatim>\<open>candidates\<close> are undefined (\<open>None\<close>) or a list.
\<close>

datatype reply = Rejected | SettingsMissing | Response "candidate list option"

text \<open>What the run does to the outside, in order.\<close>

datatype event =
    Translate string
  | Write string string
  | WriteError string
  | Save
  | SaveError

text \<open>
  Everything a run reads from outside: the settings of \<^verbatim>\<open>main\<close>, the result of
  \<^verbatim>\<open>getFilesInDirectory\<close> (\<open>None\<close> when it ends the process with status 1), the fingerprint
  document, the service's answer for each content URL, and whether writing an output path and
  the fingerprint document succeeds. Output paths are taken to differ from the path of the
  fingerprint document.
\<close>

record world =
  settings_present :: bool
  filesInRepo :: "FileInfo list option"
  hash_file :: hash_file
  translation :: "string \<Rightarrow> reply"
  write_ok :: "string \<Rightarrow> bool"
  save_ok :: bool

text \<open>
  What a run leaves: the exit status of the process, its events, and the mapping
  that \<^verbatim>\<open>saveHashToJson\<close> wrote, if it wrote one.
\<close>

record outcome =
  exit_status :: nat
  trace :: "event list"
  committed :: "hashes option"

section \<open>Change detection\<close>

text \<open>
  \<^verbatim>\<open>loadAndDetectDiffs\<close> of \<^verbatim>\<open>main.ts\<close>. The callback of \<^verbatim>\<open>filter\<close> runs once per listed file,
  so indexing a parsed \<^verbatim>\<open>null\<close> throws only when the listing is not empty; the \<^verbatim>\<open>catch\<close> block
  returns the whole listing for \<^verbatim>\<open>NotFound\<close> and ends the process with status 1 otherwise.
\<close>

fun loadAndDetectDiffs :: "FileInfo list \<Rightarrow> hash_file \<Rightarrow> FileInfo list completion" where
  "loadAndDetectDiffs repoFiles (JsonValue existingsHashes) =
     Returns (filter (\<lambda>file. existingsHashes (path file) \<noteq> Some (sha file)) repoFiles)"
| "loadAndDetectDiffs repoFiles JsonNull = (if repoFiles = [] then Returns [] else Exits 1)"
| "loadAndDetectDiffs repoFiles NotFound = Returns repoFiles"
| "loadAndDetectDiffs repoFiles ReadFailure = Exits 1"
| "loadAndDetectDiffs repoFiles NotJson = Exits 1"

text \<open>
  \<^verbatim>\<open>loadAndDetectDiffs\<close> of the second source file (\<^verbatim>\<open>part_000\<close>): the same \<^verbatim>\<open>try\<close> block, and a
  \<^verbatim>\<open>catch\<close> block that logs any error and returns the empty list.
\<close>

fun loadAndDetectDiffs_part_000 :: "FileInfo list \<Rightarrow> hash_file \<Rightarrow> FileInfo list" where
  "loadAndDetectDiffs_part_000 repoFiles (JsonValue exitingsHashes) =
     filter (\<lambda>file. exitingsHashes (path file) \<noteq> Some (sha file)) repoFiles"
| "loadAndDetectDiffs_part_000 repoFiles JsonNull = []"
| "loadAndDetectDiffs_part_000 repoFiles NotFound = []"
| "loadAndDetectDiffs_part_000 repoFiles ReadFailure = []"
| "loadAndDetectDiffs_part_000 repoFiles NotJson = []"

section \<open>Translation and output\<close>

text \<open>
  \<^verbatim>\<open>translateText\<close>: \<open>None\<close> is the \<^verbatim>\<open>undefined\<close> it returns; otherwise it returns the
  \<^verbatim>\<open>flatMap\<close> of the candidates' part texts.
\<close>

fun translateText :: "reply \<Rightarrow> string option list option completion" where
  "translateText Rejected = Throws"
| "translateText SettingsMissing = Returns None"
| "translateText (Response None) = Returns None"
| "translateText (Response (Some candidates)) =
     (if length candidates > 0
      then Returns (Some (concat (map (\<lambda>candidate. map part_text candidate) candidates)))
      else Returns None)"

text \<open>
  \<^verbatim>\<open>Array.prototype.join\<close>: an undefined element is joined as the empty string.
\<close>

fun element_string :: "string option \<Rightarrow> string" where
  "element_string None = []"
| "element_string (Some s) = s"

fun join :: "string \<Rightarrow> string option list \<Rightarrow> string" where
  "join sep [] = []"
| "join sep [x] = element_string x"
| "join sep (x # y # ys) = element_string x @ sep @ join sep (y # ys)"

definition newline :: string where
  "newline = [CHR 0x0A]"

text \<open>\<^verbatim>\<open>writeFile\<close>: a failed write ends the process with status 1.\<close>

definition writeFile :: "world \<Rightarrow> string \<Rightarrow> string \<Rightarrow> event list \<times> unit completion" where
  "writeFile w content filePath =
     (if write_ok w filePath then ([Write filePath content], Returns ())
      else ([WriteError filePath], Exits 1))"

text \<open>
  The \<^verbatim>\<open>for\<close> loop of \<^verbatim>\<open>main\<close> over the changed files: the events, and how the loop ends.
\<close>

fun for_loop :: "world \<Rightarrow> FileInfo list \<Rightarrow> event list \<times> unit completion" where
  "for_loop w [] = ([], Returns ())"
| "for_loop w (file # files) =
     (case translateText (translation w (content_url file)) of
        Throws \<Rightarrow> ([Translate (content_url file)], Throws)
      | Exits n \<Rightarrow> ([Translate (content_url file)], Exits n)
      | Returns None \<Rightarrow>
          (case for_loop w files of (es, c) \<Rightarrow> (Translate (content_url file) # es, c))
      | Returns (Some translatedContent) \<Rightarrow>
          (case writeFile w (join newline translatedContent) (path file) of
             (ws, Returns u) \<Rightarrow>
               (case for_loop w files of (es, c) \<Rightarrow> (Translate (content_url file) # ws @ es, c))
           | (ws, Exits n) \<Rightarrow> (Translate (content_url file) # ws, Exits n)
           | (ws, Throws) \<Rightarrow> (Translate (content_url file) # ws, Throws)))"

section \<open>The run\<close>

text \<open>The \<^verbatim>\<open>reduce\<close> of \<^verbatim>\<open>main\<close>: every changed file's path is given its fingerprint.\<close>

definition newHashes :: "FileInfo list \<Rightarrow> hashes" where
  "newHashes changedFiles = foldl (\<lambda>acc file. acc(path file \<mapsto> sha file)) Map.empty changedFiles"

text \<open>
  \<^verbatim>\<open>saveHashToJson\<close>: a failed write ends the process with status 1.
\<close>

definition saveHashToJson :: "world \<Rightarrow> hashes \<Rightarrow> event list \<Rightarrow> outcome" where
  "saveHashToJson w data es =
     (if save_ok w then \<lparr>exit_status = 0, trace = es @ [Save], committed = Some data\<rparr>
      else \<lparr>exit_status = 1, trace = es @ [SaveError], committed = None\<rparr>)"

text \<open>
  \<^verbatim>\<open>main\<close> of \<^verbatim>\<open>main.ts\<close>. An error that nothing catches ends the process with status 1.
\<close>

definition stopped :: "nat \<Rightarrow> event list \<Rightarrow> outcome" where
  "stopped n es = \<lparr>exit_status = n, trace = es, committed = None\<rparr>"

definition main :: "world \<Rightarrow> outcome" where
  "main w =
     (if \<not> settings_present w then stopped 1 []
      else case filesInRepo w of
        None \<Rightarrow> stopped 1 []
      | Some repoFiles \<Rightarrow>
          (case loadAndDetectDiffs repoFiles (hash_file w) of
             Exits n \<Rightarrow> stopped n []
           | Throws \<Rightarrow> stopped 1 []
           | Returns changedFiles \<Rightarrow>
               if length changedFiles > 0 then
                 (case for_loop w changedFiles of
                    (es, Returns u) \<Rightarrow> saveHashToJson w (newHashes changedFiles) es
                  | (es, Exits n) \<Rightarrow> stopped n es
                  | (es, Throws) \<Rightarrow> stopped 1 es)
               else stopped 0 []))"

text \<open>
  The fingerprint document after a run: what \<^verbatim>\<open>saveHashToJson\<close> wrote, which parses back to
  the same mapping, or the document as it was when nothing was written.
\<close>

definition document_after :: "world \<Rightarrow> outcome \<Rightarrow> hash_file" where
  "document_after w out = (case committed out of None \<Rightarrow> hash_file w | Some h \<Rightarrow> JsonValue h)"

text \<open>A second run on the same listing, contents and services, reading what the first left.\<close>

definition second_run :: "world \<Rightarrow> outcome" where
  "second_run w = main (w\<lparr>hash_file := document_after w (main w)\<rparr>)"

section \<open>Reading a run\<close>

text \<open>The entry of a path in the mapping a run committed, if it committed one.\<close>

definition committed_entry :: "outcome \<Rightarrow> string \<Rightarrow> string option" where
  "committed_entry out p = (case committed out of None \<Rightarrow> None | Some h \<Rightarrow> h p)"

text \<open>
  The text \<^verbatim>\<open>main\<close> hands to \<^verbatim>\<open>writeFile\<close> for a reply of the service:
  \<^verbatim>\<open>translatedContent.join('\n')\<close>, when \<^verbatim>\<open>translateText\<close> returned an array.
\<close>

definition translated_text :: "reply \<Rightarrow> string option" where
  "translated_text r =
     (case translateText r of
        Returns (Some translatedContent) \<Rightarrow> Some (join newline translatedContent)
      | _ \<Rightarrow> None)"

section \<open>Concrete runs\<close>

definition file_a :: FileInfo where
  "file_a = \<lparr>path = ''a.md'', sha = ''sha1'', content_url = ''https://raw.githubusercontent.com/o/r/main/a.md''\<rparr>"

definition file_b :: FileInfo where
  "file_b = \<lparr>path = ''b.md'', sha = ''sha2'', content_url = ''https://raw.githubusercontent.com/o/r/main/b.md''\<rparr>"

definition file_c :: FileInfo where
  "file_c = \<lparr>path = ''c.md'', sha = ''sha3'', content_url = ''https://raw.githubusercontent.com/o/r/main/c.md''\<rparr>"

definition stored_a :: hashes where
  "stored_a = [''a.md'' \<mapsto> ''sha1'']"

definition one_candidate :: reply where
  "one_candidate = Response (Some [[Part (Some ''translated'')]])"

definition two_parts :: reply where
  "two_parts = Response (Some [[Part (Some ''a''), Part (Some ''b'')]])"

text \<open>The scenario of the specification: \<^verbatim>\<open>a.md\<close> is stored, \<^verbatim>\<open>b.md\<close> is new, every service works.\<close>

definition scenario_world :: world where
  "scenario_world = \<lparr>settings_present = True, filesInRepo = Some [file_a, file_b],
     hash_file = JsonValue stored_a, translation = (\<lambda>url. one_candidate),
     write_ok = (\<lambda>p. True), save_ok = True\<rparr>"

text \<open>A first run: no fingerprint document yet.\<close>

definition first_world :: world where
  "first_world = \<lparr>settings_present = True, filesInRepo = Some [file_a, file_b],
     hash_file = NotFound, translation = (\<lambda>url. one_candidate),
     write_ok = (\<lambda>p. True), save_ok = True\<rparr>"

text \<open>A first run in which the service answers with an empty candidate list.\<close>

definition skip_world :: world where
  "skip_world = \<lparr>settings_present = True, filesInRepo = Some [file_c],
     hash_file = NotFound, translation = (\<lambda>url. Response (Some [])),
     write_ok = (\<lambda>p. True), save_ok = True\<rparr>"

text \<open>A first run in which no output file can be written.\<close>

definition write_fail_world :: world where
  "write_fail_world = \<lparr>settings_present = True, filesInRepo = Some [file_a],
     hash_file = NotFound, translation = (\<lambda>url. one_candidate),
     write_ok = (\<lambda>p. False), save_ok = True\<rparr>"

text \<open>A run in which the only listed file is stored with its current fingerprint.\<close>

definition unchanged_world :: world where
  "unchanged_world = \<lparr>settings_present = True, filesInRepo = Some [file_a],
     hash_file = JsonValue stored_a, translation = (\<lambda>url. one_candidate),
     write_ok = (\<lambda>p. True), save_ok = True\<rparr>"

text \<open>A run in which the fingerprint document is not JSON.\<close>

definition broken_world :: world where
  "broken_world = \<lparr>settings_present = True, filesInRepo = Some [file_a],
     hash_file = NotJson, translation = (\<lambda>url. one_candidate),
     write_ok = (\<lambda>p. True), save_ok = True\<rparr>"

section \<open>Change detection: properties\<close>

lemma stored_differs_iff:
  "stored p \<noteq> Some s \<longleftrightarrow> stored p = None \<or> (\<exists>S. stored p = Some S \<and> S \<noteq> s)"
  by (cases "stored p") auto

text \<open>
  C4. With a stored mapping that was read and parsed, the change detector returns, and a
  file is in the change set if and only if it is listed and the stored mapping has no entry for
  its path or an entry that differs from its current fingerprint. The detector of the second
  source file decides membership in the same way.
\<close>

theorem change_detection_iff:
  "(\<exists>changed. loadAndDetectDiffs listing (JsonValue stored) = Returns changed \<and>
      (\<forall>F. F \<in> set changed \<longleftrightarrow>
         F \<in> set listing \<and>
         (stored (path F) = None \<or> (\<exists>S. stored (path F) = Some S \<and> S \<noteq> sha F)))) \<and>
   (\<forall>F. F \<in> set (loadAndDetectDiffs_part_000 listing (JsonValue stored)) \<longleftrightarrow>
      F \<in> set listing \<and>
      (stored (path F) = None \<or> (\<exists>S. stored (path F) = Some S \<and> S \<noteq> sha F)))"
  using stored_differs_iff [of stored] by simp

theorem change_detection_iff_witness:
  "(\<exists>changed. loadAndDetectDiffs [file_a, file_b] (JsonValue stored_a) = Returns changed \<and>
      file_b \<in> set changed \<and> file_a \<notin> set changed) \<and>
   file_b \<in> set (loadAndDetectDiffs_part_000 [file_a, file_b] (JsonValue stored_a)) \<and>
   file_a \<notin> set (loadAndDetectDiffs_part_000 [file_a, file_b] (JsonValue stored_a))"
  using change_detection_iff [of "[file_a, file_b]" stored_a]
  by (simp add: file_a_def file_b_def stored_a_def)

text \<open>
  C10. With a stored mapping that was read and parsed, the change detectors of the two source
  files return the same list of changed files, in the same order.
\<close>

theorem detectors_agree:
  "loadAndDetectDiffs listing (JsonValue stored) =
   Returns (loadAndDetectDiffs_part_000 listing (JsonValue stored))"
  by simp

section \<open>The loop over the changed files\<close>

lemma translateText_no_exit: "translateText r \<noteq> Exits n"
  by (induction r rule: translateText.induct) simp_all

lemma for_loop_exit_status: "snd (for_loop w fs) = Exits n \<Longrightarrow> n = 1"
  by (induction fs)
    (auto simp: writeFile_def translateText_no_exit
      split: completion.splits option.splits prod.splits if_splits)

lemma for_loop_write_error:
  "WriteError p \<in> set (fst (for_loop w fs)) \<Longrightarrow> snd (for_loop w fs) = Exits 1"
  by (induction fs)
    (auto simp: writeFile_def split: completion.splits option.splits prod.splits if_splits)

lemma for_loop_no_save:
  "Save \<notin> set (fst (for_loop w fs)) \<and> SaveError \<notin> set (fst (for_loop w fs))"
  by (induction fs)
    (auto simp: writeFile_def split: completion.splits option.splits prod.splits if_splits)

lemma for_loop_write:
  "Write p c \<in> set (fst (for_loop w fs)) \<Longrightarrow>
   \<exists>f \<in> set fs. path f = p \<and> (\<exists>t. translateText (translation w (content_url f)) = Returns (Some t))"
  by (induction fs)
    (auto simp: writeFile_def split: completion.splits option.splits prod.splits if_splits)

lemma for_loop_head:
  "\<exists>es. fst (for_loop w (f # fs)) = Translate (content_url f) # es"
  by (auto simp: writeFile_def split: completion.splits option.splits prod.splits if_splits)

section \<open>The run: properties\<close>

lemma main_processing:
  assumes "settings_present w" and "filesInRepo w = Some fs"
    and "loadAndDetectDiffs fs (hash_file w) = Returns ch" and "ch \<noteq> []"
  shows "main w =
    (case for_loop w ch of
       (es, Returns u) \<Rightarrow> saveHashToJson w (newHashes ch) es
     | (es, Exits n) \<Rightarrow> stopped n es
     | (es, Throws) \<Rightarrow> stopped 1 es)"
  using assms by (simp add: main_def)

lemma main_trace_nonempty:
  assumes "trace (main w) \<noteq> []"
  shows "\<exists>fs ch. settings_present w \<and> filesInRepo w = Some fs \<and>
    loadAndDetectDiffs fs (hash_file w) = Returns ch \<and> ch \<noteq> []"
  using assms
  by (auto simp: main_def stopped_def split: option.splits completion.splits if_splits)

text \<open>
  C6. When writing a transformed output file fails, the run ends with exit status 1, no
  mapping is committed, and the fingerprint document is not even attempted to be written.
\<close>

theorem write_failure_aborts:
  assumes "WriteError p \<in> set (trace (main w))"
  shows "exit_status (main w) = 1 \<and> committed (main w) = None \<and>
    Save \<notin> set (trace (main w)) \<and> SaveError \<notin> set (trace (main w))"
proof -
  from assms have "trace (main w) \<noteq> []" by auto
  then obtain fs ch where run: "settings_present w" "filesInRepo w = Some fs"
    "loadAndDetectDiffs fs (hash_file w) = Returns ch" "ch \<noteq> []"
    using main_trace_nonempty by blast
  obtain es c where loop: "for_loop w ch = (es, c)" by (cases "for_loop w ch")
  have no_save: "Save \<notin> set es \<and> SaveError \<notin> set es"
    using for_loop_no_save [of w ch] loop by simp
  show ?thesis
  proof (cases c)
    case (Returns u)
    with run loop assms have "WriteError p \<in> set es"
      by (auto simp: main_processing saveHashToJson_def split: if_splits)
    with loop Returns show ?thesis
      using for_loop_write_error [of p w ch] by simp
  next
    case (Exits n)
    with loop have "n = 1" using for_loop_exit_status [of w ch n] by simp
    with run loop Exits no_save show ?thesis
      by (simp add: main_processing stopped_def)
  next
    case Throws
    with run loop assms have "WriteError p \<in> set es"
      by (simp add: main_processing stopped_def)
    with loop Throws show ?thesis
      using for_loop_write_error [of p w ch] by simp
  qed
qed

theorem write_failure_aborts_witness:
  "WriteError ''a.md'' \<in> set (trace (main write_fail_world)) \<and>
   exit_status (main write_fail_world) = 1 \<and> committed (main write_fail_world) = None \<and>
   Save \<notin> set (trace (main write_fail_world)) \<and> SaveError \<notin> set (trace (main write_fail_world))"
proof -
  have h: "WriteError ''a.md'' \<in> set (trace (main write_fail_world))"
    by (simp add: main_def stopped_def writeFile_def write_fail_world_def file_a_def
        one_candidate_def)
  show ?thesis using h write_failure_aborts [OF h] by simp
qed

text \<open>
  C8. When the computed change set is empty, the run is a successful no-op: nothing is
  translated or written, the fingerprint document is not rewritten and stays as it was, and
  the exit status is 0.
\<close>

theorem empty_change_set_noop:
  assumes "settings_present w" and "filesInRepo w = Some listing"
    and "loadAndDetectDiffs listing (hash_file w) = Returns []"
  shows "exit_status (main w) = 0 \<and> trace (main w) = [] \<and> committed (main w) = None \<and>
    document_after w (main w) = hash_file w"
  using assms by (simp add: main_def stopped_def document_after_def)

theorem empty_change_set_noop_witness:
  "settings_present unchanged_world \<and> filesInRepo unchanged_world = Some [file_a] \<and>
   loadAndDetectDiffs [file_a] (hash_file unchanged_world) = Returns [] \<and>
   exit_status (main unchanged_world) = 0 \<and> trace (main unchanged_world) = [] \<and>
   committed (main unchanged_world) = None \<and>
   document_after unchanged_world (main unchanged_world) = hash_file unchanged_world"
proof -
  have h1: "settings_present unchanged_world" by (simp add: unchanged_world_def)
  have h2: "filesInRepo unchanged_world = Some [file_a]" by (simp add: unchanged_world_def)
  have h3: "loadAndDetectDiffs [file_a] (hash_file unchanged_world) = Returns []"
    by (simp add: unchanged_world_def file_a_def stored_a_def)
  show ?thesis using h1 h2 h3 empty_change_set_noop [OF h1 h2 h3] by simp
qed

text \<open>
  C9. When the fingerprint document exists but is not valid JSON, loading does not fall back
  to the whole listing as it does for a missing document: it ends the process with status 1,
  and the run has translated and written nothing and committed nothing.
\<close>

theorem invalid_json_aborts:
  assumes "hash_file w = NotJson"
  shows "loadAndDetectDiffs listing (hash_file w) = Exits 1 \<and>
    loadAndDetectDiffs listing NotFound = Returns listing \<and>
    exit_status (main w) = 1 \<and> trace (main w) = [] \<and> committed (main w) = None"
  using assms by (simp add: main_def stopped_def split: option.splits)

theorem invalid_json_aborts_witness:
  "hash_file broken_world = NotJson \<and>
   loadAndDetectDiffs [file_a] (hash_file broken_world) = Exits 1 \<and>
   loadAndDetectDiffs [file_a] NotFound = Returns [file_a] \<and>
   exit_status (main broken_world) = 1 \<and> trace (main broken_world) = [] \<and>
   committed (main broken_world) = None"
proof -
  have h: "hash_file broken_world = NotJson" by (simp add: broken_world_def)
  show ?thesis using h invalid_json_aborts [OF h, of "[file_a]"] by simp
qed

text \<open>
  The first run in \<^verbatim>\<open>main.ts\<close>. When no fingerprint document exists, loading a non-empty
  listing is not an error: the change set is the entire listing, and the run goes on to hand
  the first listed file to the translation.
\<close>

theorem first_run_all_changed:
  assumes "settings_present w" and "filesInRepo w = Some listing" and "listing \<noteq> []"
    and "hash_file w = NotFound"
  shows "loadAndDetectDiffs listing (hash_file w) = Returns listing \<and>
    (\<exists>es. trace (main w) = Translate (content_url (hd listing)) # es)"
proof -
  from assms(3) obtain f fs where l: "listing = f # fs" by (cases listing) auto
  have d: "loadAndDetectDiffs listing (hash_file w) = Returns listing"
    using assms(4) by simp
  obtain es c where loop: "for_loop w listing = (es, c)" by (cases "for_loop w listing")
  obtain es' where es: "es = Translate (content_url f) # es'"
    using for_loop_head [of w f fs] loop l by auto
  have "\<exists>es''. trace (main w) = Translate (content_url f) # es''"
    using main_processing [OF assms(1) assms(2) d assms(3)] loop es
    by (cases c) (simp_all add: saveHashToJson_def stopped_def)
  with d l show ?thesis by simp
qed

theorem first_run_all_changed_witness:
  "settings_present first_world \<and> filesInRepo first_world = Some [file_a, file_b] \<and>
   [file_a, file_b] \<noteq> [] \<and> hash_file first_world = NotFound \<and>
   loadAndDetectDiffs [file_a, file_b] (hash_file first_world) = Returns [file_a, file_b] \<and>
   (\<exists>es. trace (main first_world) = Translate (content_url (hd [file_a, file_b])) # es)"
proof -
  have h1: "settings_present first_world" by (simp add: first_world_def)
  have h2: "filesInRepo first_world = Some [file_a, file_b]" by (simp add: first_world_def)
  have h3: "[file_a, file_b] \<noteq> []" by simp
  have h4: "hash_file first_world = NotFound" by (simp add: first_world_def)
  show ?thesis using h1 h2 h4 first_run_all_changed [OF h1 h2 h3 h4] by simp
qed

text \<open>
  C5. When no fingerprint document exists, every listed file is to count as changed, and
  \<^verbatim>\<open>main.ts\<close> does so. The change detector of the second source file (\<^verbatim>\<open>part_000\<close>) does not:
  its \<^verbatim>\<open>catch\<close> block has no case for \<^verbatim>\<open>Deno.errors.NotFound\<close>, so for the listing of \<^verbatim>\<open>a.md\<close>
  alone and no document it logs the error and returns the empty change set, where the
  detector of \<^verbatim>\<open>main.ts\<close> returns the listing.
\<close>

theorem first_run_part_000_no_change:
  "loadAndDetectDiffs_part_000 [file_a] NotFound = [] \<and>
   loadAndDetectDiffs_part_000 [file_a] NotFound \<noteq> [file_a] \<and>
   loadAndDetectDiffs [file_a] NotFound = Returns [file_a]"
  by simp

section \<open>The committed mapping\<close>

lemma newHashes_snoc: "newHashes (fs @ [f]) = (newHashes fs)(path f \<mapsto> sha f)"
  by (simp add: newHashes_def)

lemma newHashes_entry:
  "distinct (map path fs) \<Longrightarrow> F \<in> set fs \<Longrightarrow> newHashes fs (path F) = Some (sha F)"
proof (induction fs rule: rev_induct)
  case Nil
  then show ?case by simp
next
  case (snoc x xs)
  show ?case
  proof (cases "F = x")
    case True
    then show ?thesis by (simp add: newHashes_snoc)
  next
    case False
    with snoc.prems have in_xs: "F \<in> set xs" by simp
    from snoc.prems have "path x \<notin> path ` set xs" by simp
    with in_xs have "path F \<noteq> path x" by (metis imageI)
    note in_xs this
    with snoc show ?thesis by (simp add: newHashes_snoc)
  qed
qed

lemma newHashes_no_change:
  "distinct (map path fs) \<Longrightarrow> filter (\<lambda>file. newHashes fs (path file) \<noteq> Some (sha file)) fs = []"
  by (simp add: filter_empty_conv newHashes_entry)

lemma changed_distinct:
  assumes "loadAndDetectDiffs listing d = Returns ch" and "distinct (map path listing)"
  shows "distinct (map path ch)"
  using assms by (cases d) (auto simp: distinct_map_filter split: if_splits)

lemma main_trace_events:
  assumes "settings_present w" and "filesInRepo w = Some fs"
    and "loadAndDetectDiffs fs (hash_file w) = Returns ch"
  shows "set (trace (main w)) \<subseteq> set (fst (for_loop w ch)) \<union> {Save, SaveError}"
proof (cases "ch = []")
  case True
  with assms show ?thesis by (simp add: main_def stopped_def)
next
  case False
  obtain es c where loop: "for_loop w ch = (es, c)" by (cases "for_loop w ch")
  show ?thesis
    using main_processing [OF assms False] loop
    by (cases c) (auto simp: saveHashToJson_def stopped_def)
qed

lemma main_success:
  assumes "settings_present w" and "filesInRepo w = Some fs"
    and "loadAndDetectDiffs fs (hash_file w) = Returns ch" and "ch \<noteq> []"
    and "exit_status (main w) = 0"
  shows "committed (main w) = Some (newHashes ch)"
proof -
  obtain es c where loop: "for_loop w ch = (es, c)" by (cases "for_loop w ch")
  show ?thesis
  proof (cases c)
    case (Returns u)
    with main_processing [OF assms(1-4)] loop assms(5) show ?thesis
      by (simp add: saveHashToJson_def split: if_splits)
  next
    case (Exits n)
    with loop have "n = 1" using for_loop_exit_status [of w ch n] by simp
    with main_processing [OF assms(1-4)] loop Exits assms(5) show ?thesis
      by (simp add: stopped_def)
  next
    case Throws
    with main_processing [OF assms(1-4)] loop assms(5) show ?thesis
      by (simp add: stopped_def)
  qed
qed

text \<open>
  C1, as the code has it. For a changed file for which the service returns an empty candidate
  list (paths being unique in the listing), no output file is written; but the mapping that
  a successful run commits is built from every file of the change set, written or not, so it
  holds that file's fingerprint.
\<close>

theorem empty_reply_not_written_but_committed:
  assumes "settings_present w" and "filesInRepo w = Some listing"
    and "distinct (map path listing)"
    and "loadAndDetectDiffs listing (hash_file w) = Returns changed"
    and "F \<in> set changed"
    and "translation w (content_url F) = Response (Some [])"
  shows "(\<forall>c. Write (path F) c \<notin> set (trace (main w))) \<and>
    (exit_status (main w) = 0 \<longrightarrow>
       committed (main w) = Some (newHashes changed) \<and>
       committed_entry (main w) (path F) = Some (sha F))"
proof -
  have dist: "distinct (map path changed)"
    using changed_distinct [OF assms(4) assms(3)] .
  have skipped: "translateText (translation w (content_url F)) = Returns None"
    using assms(6) by simp
  have "Write (path F) c \<notin> set (trace (main w))" for c
  proof
    assume "Write (path F) c \<in> set (trace (main w))"
    with main_trace_events [OF assms(1,2,4)]
    have "Write (path F) c \<in> set (fst (for_loop w changed))" by auto
    then obtain f t where f: "f \<in> set changed" "path f = path F"
      "translateText (translation w (content_url f)) = Returns (Some t)"
      using for_loop_write [of "path F" c w changed] by blast
    from dist f(1,2) assms(5) have "f = F"
      by (meson distinct_map inj_onD)
    with f(3) skipped show False by simp
  qed
  moreover have "committed (main w) = Some (newHashes changed) \<and>
      committed_entry (main w) (path F) = Some (sha F)" if ok: "exit_status (main w) = 0"
  proof -
    from assms(5) have "changed \<noteq> []" by auto
    from main_success [OF assms(1,2,4) this ok]
    show ?thesis
      by (simp add: committed_entry_def newHashes_entry [OF dist assms(5)])
  qed
  ultimately show ?thesis by blast
qed

theorem empty_reply_not_written_but_committed_witness:
  "(\<forall>c. Write (path file_c) c \<notin> set (trace (main skip_world))) \<and>
   exit_status (main skip_world) = 0 \<and>
   committed (main skip_world) = Some (newHashes [file_c]) \<and>
   committed_entry (main skip_world) (path file_c) = Some (sha file_c)"
proof -
  have h1: "settings_present skip_world" by (simp add: skip_world_def)
  have h2: "filesInRepo skip_world = Some [file_c]" by (simp add: skip_world_def)
  have h3: "distinct (map path [file_c])" by simp
  have h4: "loadAndDetectDiffs [file_c] (hash_file skip_world) = Returns [file_c]"
    by (simp add: skip_world_def)
  have h5: "file_c \<in> set [file_c]" by simp
  have h6: "translation skip_world (content_url file_c) = Response (Some [])"
    by (simp add: skip_world_def)
  have h7: "exit_status (main skip_world) = 0"
    by (simp add: main_def saveHashToJson_def skip_world_def)
  show ?thesis
    using h7 empty_reply_not_written_but_committed [OF h1 h2 h3 h4 h5 h6] by simp
qed

text \<open>
  C1, as stated, fails: on a first run that lists only \<^verbatim>\<open>c.md\<close>, with a service that answers
  with an empty candidate list, the run ends with status 0 and the committed mapping holds
  the fingerprint of \<^verbatim>\<open>c.md\<close>.
\<close>

theorem empty_reply_committed_counterexample:
  "translation skip_world (content_url file_c) = Response (Some []) \<and>
   loadAndDetectDiffs [file_c] (hash_file skip_world) = Returns [file_c] \<and>
   exit_status (main skip_world) = 0 \<and>
   trace (main skip_world) = [Translate (content_url file_c), Save] \<and>
   committed_entry (main skip_world) ''c.md'' = Some ''sha3''"
  by (simp add: main_def saveHashToJson_def newHashes_def committed_entry_def skip_world_def
      file_c_def)

text \<open>
  C2, as the code has it. With the stored mapping \<^verbatim>\<open>{"a.md": "sha1"}\<close> and the listing of
  \<^verbatim>\<open>a.md\<close> with \<^verbatim>\<open>sha1\<close> and \<^verbatim>\<open>b.md\<close> with \<^verbatim>\<open>sha2\<close>, the change set is exactly the entry of
  \<^verbatim>\<open>b.md\<close>; when the service answers for it and the writes succeed, only \<^verbatim>\<open>b.md\<close> is translated and
  written, and the committed mapping is \<^verbatim>\<open>{"b.md": "sha2"}\<close>: the entry of the unchanged
  \<^verbatim>\<open>a.md\<close> is not carried forward.
\<close>

theorem scenario_commits_changed_only:
  assumes "settings_present w" and "filesInRepo w = Some [A, B]"
    and "path A = ''a.md''" and "sha A = ''sha1''"
    and "path B = ''b.md''" and "sha B = ''sha2''"
    and "hash_file w = JsonValue [''a.md'' \<mapsto> ''sha1'']"
    and "translateText (translation w (content_url B)) = Returns (Some texts)"
    and "write_ok w ''b.md''" and "save_ok w"
  shows "loadAndDetectDiffs [A, B] (hash_file w) = Returns [B] \<and>
    trace (main w) = [Translate (content_url B), Write ''b.md'' (join newline texts), Save] \<and>
    exit_status (main w) = 0 \<and>
    committed (main w) = Some [''b.md'' \<mapsto> ''sha2'']"
proof -
  have d: "loadAndDetectDiffs [A, B] (hash_file w) = Returns [B]"
    using assms(3-7) by simp
  have loop: "for_loop w [B] = ([Translate (content_url B), Write ''b.md'' (join newline texts)], Returns ())"
    using assms(5,8,9) by (simp add: writeFile_def)
  have "main w = \<lparr>exit_status = 0,
      trace = [Translate (content_url B), Write ''b.md'' (join newline texts), Save],
      committed = Some (newHashes [B])\<rparr>"
    using main_processing [OF assms(1,2) d] loop assms(10)
    by (simp add: saveHashToJson_def)
  with d assms(5,6) show ?thesis by (simp add: newHashes_def)
qed

theorem scenario_commits_changed_only_witness:
  "loadAndDetectDiffs [file_a, file_b] (hash_file scenario_world) = Returns [file_b] \<and>
   trace (main scenario_world) =
     [Translate (content_url file_b), Write ''b.md'' (join newline [Some ''translated'']), Save] \<and>
   exit_status (main scenario_world) = 0 \<and>
   committed (main scenario_world) = Some [''b.md'' \<mapsto> ''sha2'']"
proof -
  have h1: "settings_present scenario_world" by (simp add: scenario_world_def)
  have h2: "filesInRepo scenario_world = Some [file_a, file_b]"
    by (simp add: scenario_world_def)
  have h3: "path file_a = ''a.md''" and h4: "sha file_a = ''sha1''"
    by (simp_all add: file_a_def)
  have h5: "path file_b = ''b.md''" and h6: "sha file_b = ''sha2''"
    by (simp_all add: file_b_def)
  have h7: "hash_file scenario_world = JsonValue [''a.md'' \<mapsto> ''sha1'']"
    by (simp add: scenario_world_def stored_a_def)
  have h8: "translateText (translation scenario_world (content_url file_b)) =
      Returns (Some [Some ''translated''])"
    by (simp add: scenario_world_def one_candidate_def)
  have h9: "write_ok scenario_world ''b.md''" and h10: "save_ok scenario_world"
    by (simp_all add: scenario_world_def)
  show ?thesis
    using scenario_commits_changed_only [OF h1 h2 h3 h4 h5 h6 h7 h8 h9 h10] by simp
qed

text \<open>
  C2, as stated, fails: in the scenario, with every service working, the committed mapping
  has no entry for \<^verbatim>\<open>a.md\<close>.
\<close>

theorem scenario_drops_unchanged_counterexample:
  "exit_status (main scenario_world) = 0 \<and>
   committed_entry (main scenario_world) ''b.md'' = Some ''sha2'' \<and>
   committed_entry (main scenario_world) ''a.md'' = None"
  by (simp add: main_def saveHashToJson_def writeFile_def newHashes_def committed_entry_def
      scenario_world_def file_a_def file_b_def stored_a_def one_candidate_def)

text \<open>
  C3, as the code has it. When paths are unique in the listing, the first run ends with
  status 0, and its change set is empty or the entire listing, a second run on the same
  listing and contents translates and writes nothing, does not write the fingerprint document
  (which so stays as the first run left it), and ends with status 0.
\<close>

theorem second_run_noop:
  assumes "settings_present w" and "filesInRepo w = Some listing"
    and "distinct (map path listing)"
    and "loadAndDetectDiffs listing (hash_file w) = Returns [] \<or>
         loadAndDetectDiffs listing (hash_file w) = Returns listing"
    and "exit_status (main w) = 0"
  shows "trace (second_run w) = [] \<and> committed (second_run w) = None \<and>
    exit_status (second_run w) = 0"
proof (cases "loadAndDetectDiffs listing (hash_file w) = Returns []")
  case True
  with assms(1,2) have "main w = stopped 0 []" by (simp add: main_def)
  then have "document_after w (main w) = hash_file w"
    by (simp add: document_after_def stopped_def)
  then have "second_run w = main w" by (simp add: second_run_def)
  with \<open>main w = stopped 0 []\<close> show ?thesis by (simp add: stopped_def)
next
  case False
  with assms(4) have all: "loadAndDetectDiffs listing (hash_file w) = Returns listing"
    and ne: "listing \<noteq> []" by auto
  have "committed (main w) = Some (newHashes listing)"
    using main_success [OF assms(1,2) all ne assms(5)] .
  then have "document_after w (main w) = JsonValue (newHashes listing)"
    by (simp add: document_after_def)
  then have "second_run w = main (w\<lparr>hash_file := JsonValue (newHashes listing)\<rparr>)"
    by (simp add: second_run_def)
  also have "\<dots> = stopped 0 []"
    using assms(1,2) newHashes_no_change [OF assms(3)] by (simp add: main_def)
  finally show ?thesis by (simp add: stopped_def)
qed

theorem second_run_noop_witness:
  "exit_status (main first_world) = 0 \<and> trace (second_run first_world) = [] \<and>
   committed (second_run first_world) = None \<and> exit_status (second_run first_world) = 0"
proof -
  have h1: "settings_present first_world" by (simp add: first_world_def)
  have h2: "filesInRepo first_world = Some [file_a, file_b]" by (simp add: first_world_def)
  have h3: "distinct (map path [file_a, file_b])" by (simp add: file_a_def file_b_def)
  have h4: "loadAndDetectDiffs [file_a, file_b] (hash_file first_world) = Returns [] \<or>
      loadAndDetectDiffs [file_a, file_b] (hash_file first_world) = Returns [file_a, file_b]"
    by (simp add: first_world_def)
  have h5: "exit_status (main first_world) = 0"
    by (simp add: main_def saveHashToJson_def writeFile_def first_world_def one_candidate_def)
  show ?thesis using h5 second_run_noop [OF h1 h2 h3 h4 h5] by simp
qed

text \<open>
  C3, as stated, fails: after a successful first run of the scenario, a second run on the
  same listing translates and writes the unchanged \<^verbatim>\<open>a.md\<close> and rewrites the fingerprint
  document, which loses the entry of \<^verbatim>\<open>b.md\<close>.
\<close>

theorem second_run_translates_counterexample:
  "exit_status (main scenario_world) = 0 \<and>
   trace (second_run scenario_world) =
     [Translate (content_url file_a), Write ''a.md'' ''translated'', Save] \<and>
   committed_entry (main scenario_world) ''b.md'' = Some ''sha2'' \<and>
   committed_entry (second_run scenario_world) ''b.md'' = None"
  by (simp add: second_run_def document_after_def main_def saveHashToJson_def writeFile_def
      newHashes_def committed_entry_def scenario_world_def file_a_def file_b_def stored_a_def
      one_candidate_def)

section \<open>The translated text\<close>

lemma join_closed_form:
  "join sep (t # ts) = element_string t @ concat (map (\<lambda>u. sep @ element_string u) ts)"
  by (induction ts arbitrary: t) simp_all

text \<open>
  C7, as the code has it. For a response with at least one candidate, the transformer returns
  the part texts of all candidates in response order (candidates in order and, within each,
  its parts in order), and the text that is written is these texts joined with one line break
  between consecutive parts, a part without text counting as the empty string.
\<close>

theorem translated_text_joined_by_line_breaks:
  assumes "candidates \<noteq> []"
  shows "translateText (Response (Some candidates)) =
      Returns (Some (concat (map (map part_text) candidates))) \<and>
    translated_text (Response (Some candidates)) =
      Some (case concat (map (map part_text) candidates) of
              [] \<Rightarrow> []
            | t # ts \<Rightarrow> element_string t @ concat (map (\<lambda>u. newline @ element_string u) ts))"
proof -
  have "join newline xs =
      (case xs of [] \<Rightarrow> []
       | t # ts \<Rightarrow> element_string t @ concat (map (\<lambda>u. newline @ element_string u) ts))"
    for xs
    by (cases xs) (simp_all add: join_closed_form)
  with assms show ?thesis by (simp add: translated_text_def)
qed

theorem translated_text_joined_by_line_breaks_witness:
  "[[Part (Some ''a''), Part (Some ''b'')]] \<noteq> [] \<and>
   translateText two_parts = Returns (Some [Some ''a'', Some ''b'']) \<and>
   translated_text two_parts = Some (''a'' @ newline @ ''b'')"
proof -
  have h: "[[Part (Some ''a''), Part (Some ''b'')]] \<noteq> []" by simp
  show ?thesis
    using translated_text_joined_by_line_breaks [OF h] by (simp add: two_parts_def)
qed

text \<open>
  C7, as stated, fails: for one candidate with the two text parts \<^verbatim>\<open>a\<close> and \<^verbatim>\<open>b\<close> the
  written text is not their concatenation \<^verbatim>\<open>ab\<close>; a line break stands between them.
\<close>

theorem translated_text_not_concatenation_counterexample:
  "translated_text two_parts = Some [CHR ''a'', CHR 0x0A, CHR ''b''] \<and>
   translated_text two_parts \<noteq> Some (''a'' @ ''b'')"
  by (simp add: translated_text_def two_parts_def newline_def)

end
